theory Spec2Isabelle
  imports Main "HOL-Library.AList"
begin

section \<open>JSON values\<close>

text \<open>
  The request body is parsed by \<^verbatim>\<open>express.json\<close> before a handler runs, so a handler works on
  JavaScript values that came out of \<^verbatim>\<open>JSON.parse\<close>. Their numbers are doubles. The type
  parameter \<open>'n\<close> stands for the finite doubles (with \<^verbatim>\<open>-0\<close> and \<^verbatim>\<open>0\<close> taken as one value: no
  operation of the program tells them apart), and every function that needs the text of a
  number takes \<^verbatim>\<open>Number::toString\<close> as its argument \<open>num_text\<close>. A number literal that
  overflows, such as \<^verbatim>\<open>1e400\<close>, is parsed to \<^verbatim>\<open>Infinity\<close> or \<^verbatim>\<open>-Infinity\<close>
  (\<open>VInfinity False\<close> and \<open>VInfinity True\<close>). Strings are the
  bytes of their UTF-8 encoding, which is what \<^verbatim>\<open>Buffer.byteLength(s, 'utf8')\<close> and
  \<^verbatim>\<open>fs.statSync(f).size\<close> count; an object is the list of its own properties (their names
  distinct, as \<^verbatim>\<open>JSON.parse\<close> leaves them), in the order of \<^verbatim>\<open>Object.keys\<close>.
\<close>

datatype 'n jsvalue =
    VNull
  | VBool bool
  | VNum 'n
  | VInfinity bool
  | VStr string
  | VArr "'n jsvalue list"
  | VObj "(string \<times> 'n jsvalue) list"

text \<open>
  The values that a JSON text can hold: what \<^verbatim>\<open>JSON.parse\<close> reads from \<^verbatim>\<open>global.json\<close> and
  what \<^verbatim>\<open>res.json\<close> sends.
\<close>

datatype 'n json =
    JNull
  | JBool bool
  | JNum 'n
  | JStr string
  | JArr "'n json list"
  | JObj "(string \<times> 'n json) list"

text \<open>
  JavaScript's \<^verbatim>\<open>ToBoolean\<close>, as used by \<^verbatim>\<open>if (!json)\<close>. The falsy numbers out of
  \<^verbatim>\<open>JSON.parse\<close> are \<^verbatim>\<open>0\<close> and \<^verbatim>\<open>-0\<close>, the numbers whose text is \<^verbatim>\<open>0\<close>.
\<close>

fun truthy :: "('n \<Rightarrow> string) \<Rightarrow> 'n jsvalue \<Rightarrow> bool" where
  "truthy num_text VNull = False"
| "truthy num_text (VBool b) = b"
| "truthy num_text (VNum n) = (num_text n \<noteq> ''0'')"
| "truthy num_text (VInfinity negative) = True"
| "truthy num_text (VStr s) = (s \<noteq> [])"
| "truthy num_text (VArr xs) = True"
| "truthy num_text (VObj kvs) = True"

text \<open>
  \<^verbatim>\<open>JSON.parse(JSON.stringify(v))\<close>: what a value has become once it has been written to the
  file and read back. \<^verbatim>\<open>JSON.stringify\<close> writes \<^verbatim>\<open>Infinity\<close> and \<^verbatim>\<open>-Infinity\<close> as
  \<^verbatim>\<open>null\<close>; everything else is read back as it was.
\<close>

fun persisted :: "'n jsvalue \<Rightarrow> 'n json" where
  "persisted VNull = JNull"
| "persisted (VBool b) = JBool b"
| "persisted (VNum n) = JNum n"
| "persisted (VInfinity negative) = JNull"
| "persisted (VStr s) = JStr s"
| "persisted (VArr xs) = JArr (map persisted xs)"
| "persisted (VObj kvs) = JObj (map (\<lambda>(k, v). (k, persisted v)) kvs)"



subsection \<open>\<^verbatim>\<open>JSON.stringify\<close>\<close>

definition digit :: "nat \<Rightarrow> char" where
  "digit n = ''0123456789abcdef'' ! n"

function show_nat :: "nat \<Rightarrow> string" where
  "show_nat n = (if n < 10 then [digit n] else show_nat (n div 10) @ [digit (n mod 10)])"
  by pat_completeness auto
termination
  by (relation "measure id") auto

text \<open>
  The text of an integer in plain decimal. This is what \<^verbatim>\<open>Number::toString\<close> gives on the
  integers of magnitude below \<open>10\<^sup>2\<^sup>1\<close> that are doubles. It is used where a number is
  formatted with two decimals and as the text of the numbers in the worked examples, all of
  them in that range.
\<close>

definition show_int :: "int \<Rightarrow> string" where
  "show_int i = (if i < 0 then CHR ''-'' # show_nat (nat (- i)) else show_nat (nat i))"

text \<open>
  \<^verbatim>\<open>QuoteJSONString\<close>: the quote and the backslash are escaped, the control characters get
  their short escape or \<^verbatim>\<open>\u00XX\<close>, every other byte is written as it is.
\<close>

definition escape_char :: "char \<Rightarrow> string" where
  "escape_char c =
     (if c = CHR 0x22 then [CHR 0x5C, CHR 0x22]
      else if c = CHR 0x5C then [CHR 0x5C, CHR 0x5C]
      else if c = CHR 0x08 then [CHR 0x5C, CHR ''b'']
      else if c = CHR 0x0C then [CHR 0x5C, CHR ''f'']
      else if c = CHR 0x0A then [CHR 0x5C, CHR ''n'']
      else if c = CHR 0x0D then [CHR 0x5C, CHR ''r'']
      else if c = CHR 0x09 then [CHR 0x5C, CHR ''t'']
      else if (of_char c :: nat) < 32
        then [CHR 0x5C, CHR ''u'', CHR ''0'', CHR ''0'',
              digit (of_char c div 16), digit (of_char c mod 16)]
      else [c])"

definition quote :: "string \<Rightarrow> string" where
  "quote s = CHR 0x22 # concat (map escape_char s) @ [CHR 0x22]"

fun join :: "string \<Rightarrow> string list \<Rightarrow> string" where
  "join sep [] = []"
| "join sep [x] = x"
| "join sep (x # y # ys) = x @ sep @ join sep (y # ys)"

text \<open>
  \<^verbatim>\<open>JSON.stringify(value, null, space)\<close> with \<open>gap\<close> the indentation unit (empty for the
  compact form) and \<open>ind\<close> the current indentation, after \<^verbatim>\<open>SerializeJSONProperty\<close>,
  \<^verbatim>\<open>SerializeJSONObject\<close> and \<^verbatim>\<open>SerializeJSONArray\<close> of ECMA-262.
\<close>

fun serialize :: "('n \<Rightarrow> string) \<Rightarrow> string \<Rightarrow> string \<Rightarrow> 'n json \<Rightarrow> string" where
  "serialize num_text gap ind JNull = ''null''"
| "serialize num_text gap ind (JBool b) = (if b then ''true'' else ''false'')"
| "serialize num_text gap ind (JNum n) = num_text n"
| "serialize num_text gap ind (JStr s) = quote s"
| "serialize num_text gap ind (JArr xs) =
     (let stepback = ind; ind = ind @ gap;
          partial = map (serialize num_text gap ind) xs
      in if partial = [] then ''[]''
         else if gap = [] then ''['' @ join '','' partial @ '']''
         else ''['' @ [CHR 0x0A] @ ind @ join ('','' @ [CHR 0x0A] @ ind) partial
              @ [CHR 0x0A] @ stepback @ '']'')"
| "serialize num_text gap ind (JObj kvs) =
     (let stepback = ind; ind = ind @ gap;
          partial = map (\<lambda>(k, v). quote k @ '':'' @ (if gap = [] then [] else '' '')
                                    @ serialize num_text gap ind v) kvs
      in if partial = [] then ''{}''
         else if gap = [] then ''{'' @ join '','' partial @ ''}''
         else ''{'' @ [CHR 0x0A] @ ind @ join ('','' @ [CHR 0x0A] @ ind) partial
              @ [CHR 0x0A] @ stepback @ ''}'')"

text \<open>
  \<^verbatim>\<open>JSON.stringify(json)\<close> of a value in memory. A non-finite number is written as
  \<^verbatim>\<open>null\<close>, so the text of a value is the text of what it is read back as.
\<close>

definition stringify :: "('n \<Rightarrow> string) \<Rightarrow> 'n jsvalue \<Rightarrow> string" where
  "stringify num_text v = serialize num_text [] [] (persisted v)"

definition stringify2 :: "('n \<Rightarrow> string) \<Rightarrow> 'n json \<Rightarrow> string" where
  "stringify2 num_text v = serialize num_text ''  '' [] v"

definition byteLength :: "string \<Rightarrow> nat" where
  "byteLength s = length s"

section \<open>The store\<close>

definition THIRTY_DAYS_MS :: int where
  "THIRTY_DAYS_MS = 30 * 24 * 60 * 60 * 1000"

definition MAX_JSON_SIZE :: nat where
  "MAX_JSON_SIZE = 5 * 1024 * 1024"

definition MAX_DB_SIZE :: int where
  "MAX_DB_SIZE = 2 * 1024 * 1024 * 1024"

text \<open>One entry of \<^verbatim>\<open>global.json\<close>: \<^verbatim>\<open>{ timeRemove: ..., data: ... }\<close>.\<close>

record 'n entry =
  timeRemove :: int
  data :: "'n json"

text \<open>
  The object that \<^verbatim>\<open>readData\<close> returns: its own properties, one per user id. The file is
  represented by the document it holds (\<^verbatim>\<open>JSON.parse\<close> gives back what
  \<^verbatim>\<open>JSON.stringify\<close> wrote); \<open>None\<close> is a file that does not exist.
  \<open>writes\<close> counts the calls of \<^verbatim>\<open>fs.writeFileSync\<close>. \<open>proto_timeRemove\<close> is the property
  \<^verbatim>\<open>Object.prototype.timeRemove\<close> of the running process, which the read handler can create
  (see \<open>read_handler\<close>).
\<close>

type_synonym 'n document = "(string \<times> 'n entry) list"

record 'n state =
  data_file :: "'n document option"
  writes :: nat
  proto_timeRemove :: "int option"

definition readData :: "'n state \<Rightarrow> 'n document" where
  "readData st = (case data_file st of Some doc \<Rightarrow> doc | None \<Rightarrow> [])"

definition writeData :: "'n document \<Rightarrow> 'n state \<Rightarrow> 'n state" where
  "writeData doc st = st\<lparr>data_file := Some doc, writes := writes st + 1\<rparr>"

subsection \<open>Property access on the document\<close>

text \<open>
  \<^verbatim>\<open>data[userId]\<close> on a plain object looks at the object's own properties first and then at
  \<^verbatim>\<open>Object.prototype\<close>, whose members are functions (and, for \<^verbatim>\<open>__proto__\<close>, the
  prototype object itself).
\<close>

definition object_prototype_names :: "string list" where
  "object_prototype_names =
     [''constructor'', ''__defineGetter__'', ''__defineSetter__'', ''hasOwnProperty'',
      ''__lookupGetter__'', ''__lookupSetter__'', ''isPrototypeOf'', ''propertyIsEnumerable'',
      ''toString'', ''valueOf'', ''__proto__'', ''toLocaleString'']"

datatype 'n property = Own "'n entry" | Builtin | ProtoNum int | Undefined

definition get_property :: "'n state \<Rightarrow> 'n document \<Rightarrow> string \<Rightarrow> 'n property" where
  "get_property st doc userId =
     (case map_of doc userId of
        Some e \<Rightarrow> Own e
      | None \<Rightarrow>
          if userId \<in> set object_prototype_names then Builtin
          else if userId = ''timeRemove'' then
            (case proto_timeRemove st of Some n \<Rightarrow> ProtoNum n | None \<Rightarrow> Undefined)
          else Undefined)"

fun truthy_property :: "'n property \<Rightarrow> bool" where
  "truthy_property (Own e) = True"
| "truthy_property Builtin = True"
| "truthy_property (ProtoNum n) = (n \<noteq> 0)"
| "truthy_property Undefined = False"

text \<open>
  The order of the own properties (\<^verbatim>\<open>OrdinaryOwnPropertyKeys\<close>): first the array indices,
  the canonical decimal strings below \<open>2\<^sup>3\<^sup>2 - 1\<close>, in ascending numeric order, then the other
  keys in the order of their creation.
\<close>

definition is_digit :: "char \<Rightarrow> bool" where
  "is_digit c = (48 \<le> (of_char c :: nat) \<and> (of_char c :: nat) \<le> 57)"

definition decimal_value :: "string \<Rightarrow> nat" where
  "decimal_value s = foldl (\<lambda>acc c. 10 * acc + (of_char c - 48)) 0 s"

definition array_index :: "string \<Rightarrow> nat option" where
  "array_index k =
     (if k \<noteq> [] \<and> list_all is_digit k \<and> (if hd k = CHR ''0'' then k = ''0'' else True)
         \<and> decimal_value k < 4294967295
      then Some (decimal_value k) else None)"

definition precedes :: "string \<Rightarrow> string \<Rightarrow> bool" where
  "precedes k k' =
     (case array_index k of
        None \<Rightarrow> False
      | Some i \<Rightarrow> (case array_index k' of None \<Rightarrow> True | Some j \<Rightarrow> i < j))"

fun insert_new :: "string \<Rightarrow> 'n entry \<Rightarrow> 'n document \<Rightarrow> 'n document" where
  "insert_new k e [] = [(k, e)]"
| "insert_new k e ((k', e') # rest) =
     (if precedes k k' then (k, e) # (k', e') # rest else (k', e') # insert_new k e rest)"

text \<open>
  \<^verbatim>\<open>data[userId] = entry\<close> replaces an own property where it stands or creates one, except
  that assigning to \<^verbatim>\<open>__proto__\<close> (when it is not an own property) calls the setter
  inherited from \<^verbatim>\<open>Object.prototype\<close>: the object's prototype changes and no own property
  appears.
\<close>

definition set_property :: "'n document \<Rightarrow> string \<Rightarrow> 'n entry \<Rightarrow> 'n document" where
  "set_property doc userId e =
     (case map_of doc userId of
        Some old \<Rightarrow> AList.update userId e doc
      | None \<Rightarrow> if userId = ''__proto__'' then doc else insert_new userId e doc)"

text \<open>\<^verbatim>\<open>delete data[userId]\<close> removes an own property and does nothing otherwise.\<close>

definition delete_property :: "'n document \<Rightarrow> string \<Rightarrow> 'n document" where
  "delete_property doc userId = AList.delete userId doc"

subsection \<open>The sweep\<close>

text \<open>
  The \<^verbatim>\<open>forEach\<close> of \<^verbatim>\<open>removeInactiveUsers\<close> over \<^verbatim>\<open>Object.keys(data)\<close>, carrying the
  object and the flag \<^verbatim>\<open>modified\<close>. The keys of an object are distinct, so a key is still an
  own property when its turn comes.
\<close>

fun forEach_remove ::
  "int \<Rightarrow> string list \<Rightarrow> 'n document \<times> bool \<Rightarrow> 'n document \<times> bool" where
  "forEach_remove now [] (doc, modified) = (doc, modified)"
| "forEach_remove now (userId # rest) (doc, modified) =
     (case map_of doc userId of
        Some e \<Rightarrow>
          if timeRemove e \<le> now then forEach_remove now rest (delete_property doc userId, True)
          else forEach_remove now rest (doc, modified)
      | None \<Rightarrow> forEach_remove now rest (doc, modified))"

definition removeInactiveUsers :: "'n state \<Rightarrow> int \<Rightarrow> 'n state" where
  "removeInactiveUsers st now =
     (let doc = readData st;
          (doc', modified) = forEach_remove now (map fst doc) (doc, False)
      in if modified then writeData doc' st else st)"

section \<open>The request handlers\<close>

datatype 'n body = Text string | Json "'n json" | NoBody

record 'n response =
  status :: nat
  body :: "'n body"

definition res_send :: "nat \<Rightarrow> string \<Rightarrow> 'n response" where
  "res_send code s = \<lparr>status = code, body = Text s\<rparr>"

text \<open>
  \<^verbatim>\<open>res.json(v)\<close> sends \<^verbatim>\<open>JSON.stringify(v)\<close>; for \<^verbatim>\<open>undefined\<close> that is
  \<^verbatim>\<open>undefined\<close> and the response has no body.
\<close>

definition res_json :: "'n json option \<Rightarrow> 'n response" where
  "res_json v = (case v of Some j \<Rightarrow> \<lparr>status = 200, body = Json j\<rparr>
                         | None \<Rightarrow> \<lparr>status = 200, body = NoBody\<rparr>)"

subsection \<open>\<^verbatim>\<open>POST /write/:userId\<close>\<close>

text \<open>
  The argument \<open>json\<close> is \<^verbatim>\<open>req.body.json\<close>, \<open>None\<close> when it is \<^verbatim>\<open>undefined\<close>. The entry
  goes into the object with the value as it is and \<^verbatim>\<open>writeData\<close> serializes it; the store
  holds it as every later \<^verbatim>\<open>readData\<close> reads it back.
\<close>

definition write_handler ::
  "('n \<Rightarrow> string) \<Rightarrow> 'n state \<Rightarrow> string \<Rightarrow> 'n jsvalue option \<Rightarrow> int \<Rightarrow> 'n response \<times> 'n state" where
  "write_handler num_text st userId json now =
     (case json of
        None \<Rightarrow> (res_send 400 ''Missing json body parameter'', st)
      | Some j \<Rightarrow>
          if \<not> truthy num_text j then (res_send 400 ''Missing json body parameter'', st)
          else
            let dataSize = byteLength (stringify num_text j) in
            if dataSize > MAX_JSON_SIZE
            then (res_send 400 ''JSON size exceeds the maximum limit of 5 MB'', st)
            else
              let doc = readData st;
                  doc = set_property doc userId
                          \<lparr>timeRemove = now + THIRTY_DAYS_MS, data = persisted j\<rparr>
              in (res_send 200 (''Data for user '' @ userId @ '' has been written''),
                  writeData doc st))"

subsection \<open>\<^verbatim>\<open>GET /read/:userId\<close>\<close>

text \<open>
  The branch taken is decided by the truth value of \<^verbatim>\<open>data[userId]\<close>.
  \<^item> An own entry gets its \<^verbatim>\<open>timeRemove\<close> reset and its \<^verbatim>\<open>data\<close> is sent.
  \<^item> An inherited member of \<^verbatim>\<open>Object.prototype\<close> is truthy as well: the assignment sets a
    property on that member (for \<^verbatim>\<open>__proto__\<close> this is \<^verbatim>\<open>Object.prototype.timeRemove\<close>),
    the unchanged object is written, and \<^verbatim>\<open>.data\<close> is \<^verbatim>\<open>undefined\<close>.
  \<^item> An inherited number ignores the assignment; its \<^verbatim>\<open>.data\<close> is \<^verbatim>\<open>undefined\<close>.
\<close>

definition read_handler :: "'n state \<Rightarrow> string \<Rightarrow> int \<Rightarrow> 'n response \<times> 'n state" where
  "read_handler st userId now =
     (let doc = readData st in
      case get_property st doc userId of
        Own e \<Rightarrow>
          (res_json (Some (data e)),
           writeData (AList.update userId (e\<lparr>timeRemove := now + THIRTY_DAYS_MS\<rparr>) doc) st)
      | Builtin \<Rightarrow>
          (res_json None,
           writeData doc
             (if userId = ''__proto__''
              then st\<lparr>proto_timeRemove := Some (now + THIRTY_DAYS_MS)\<rparr> else st))
      | ProtoNum n \<Rightarrow>
          if n \<noteq> 0 then (res_json None, writeData doc st)
          else (res_json (Some (JObj [])), st)
      | Undefined \<Rightarrow> (res_json (Some (JObj [])), st))"

subsection \<open>\<^verbatim>\<open>GET /delete/:userId\<close>\<close>

definition delete_handler :: "'n state \<Rightarrow> string \<Rightarrow> 'n response \<times> 'n state" where
  "delete_handler st userId =
     (let doc = readData st in
      if truthy_property (get_property st doc userId)
      then (res_send 200 (''Data for user '' @ userId @ '' has been deleted''),
            writeData (delete_property doc userId) st)
      else (res_send 404 (''No data found for user '' @ userId), st))"

subsection \<open>\<^verbatim>\<open>GET /dbinfo\<close>\<close>

datatype error = ENOENT | PayloadTooLarge

text \<open>
  The text of \<^verbatim>\<open>global.json\<close> is \<^verbatim>\<open>JSON.stringify(data, null, 2)\<close>. Its numbers are the
  \<^verbatim>\<open>timeRemove\<close> of the entries, whose text is given by \<open>time_text\<close>
  (\<^verbatim>\<open>Number::toString\<close> on the clock values), and the numbers of the payloads.
\<close>

definition json_of_document :: "'n document \<Rightarrow> (int + 'n) json" where
  "json_of_document doc =
     JObj (map (\<lambda>(userId, e). (userId, JObj [(''timeRemove'', JNum (Inl (timeRemove e))),
                                                (''data'', map_json Inr (data e))])) doc)"

text \<open>\<^verbatim>\<open>fs.statSync\<close> throws when the file does not exist.\<close>

definition getFileSizeInBytes ::
  "(int \<Rightarrow> string) \<Rightarrow> ('n \<Rightarrow> string) \<Rightarrow> 'n state \<Rightarrow> error + nat" where
  "getFileSizeInBytes time_text num_text st =
     (case data_file st of
        None \<Rightarrow> Inl ENOENT
      | Some doc \<Rightarrow>
          Inr (byteLength (stringify2 (case_sum time_text num_text) (json_of_document doc))))"

definition getRemainingDbSpace :: "int \<Rightarrow> int" where
  "getRemainingDbSpace usedSize = MAX_DB_SIZE - usedSize"

text \<open>
  \<^verbatim>\<open>(bytes / (1024 * 1024)).toFixed(2)\<close>. The quotient of an integer by \<open>2\<^sup>2\<^sup>0\<close> is exact in
  double precision, and \<^verbatim>\<open>toFixed\<close> rounds the magnitude to the nearest hundredth, a tie
  upwards, behind the sign.
\<close>

definition toFixed2_MB :: "int \<Rightarrow> string" where
  "toFixed2_MB bytes =
     (let n = (\<bar>bytes\<bar> * 100 + 524288) div 1048576
      in (if bytes < 0 then ''-'' else []) @ show_int (n div 100) @ ''.''
         @ [digit (nat (n mod 100 div 10)), digit (nat (n mod 10))])"

definition dbinfo_handler ::
  "(int \<Rightarrow> string) \<Rightarrow> ('n \<Rightarrow> string) \<Rightarrow> 'n state \<Rightarrow> error + 'n response" where
  "dbinfo_handler time_text num_text st =
     (case getFileSizeInBytes time_text num_text st of
        Inl err \<Rightarrow> Inl err
      | Inr usedSize \<Rightarrow>
          let remainingSize = getRemainingDbSpace (int usedSize) in
          Inr (res_send 200
            ([CHR 0x0A] @ ''    <p>Database Size Information:</p>'' @
             [CHR 0x0A] @ ''    <ul>'' @
             [CHR 0x0A] @ ''      <li>Used Size: '' @ toFixed2_MB (int usedSize) @ '' MB</li>'' @
             [CHR 0x0A] @ ''      <li>Remaining Size: '' @ toFixed2_MB remainingSize @ '' MB</li>'' @
             [CHR 0x0A] @ ''      <li>Maximum Size: '' @ toFixed2_MB MAX_DB_SIZE @ '' MB</li>'' @
             [CHR 0x0A] @ ''    </ul>'' @
             [CHR 0x0A] @ ''  '')))"

subsection \<open>A request: the body parser, the sweep, then the route\<close>

text \<open>
  The first middleware is \<^verbatim>\<open>express.json({ limit: '5mb' })\<close>. \<open>bodyLength\<close> is the number of
  bytes of the JSON body that it reads (\<open>0\<close> for a request without one); a body of more than
  5242880 bytes makes it fail with status 413, and then neither the sweep nor a handler
  runs. A body that is not well-formed JSON is not modelled: the request carries the parsed
  value. Otherwise the request passes the middleware that calls \<^verbatim>\<open>removeInactiveUsers\<close> and
  reaches its handler. Each of the two reads the clock itself: \<open>sweepNow\<close> is the
  \<^verbatim>\<open>Date.now()\<close> of the sweep, \<open>now\<close> that of the handler. When \<^verbatim>\<open>/dbinfo\<close> throws, the
  result is the error.
\<close>

definition BODY_LIMIT :: nat where
  "BODY_LIMIT = 5 * 1024 * 1024"

datatype 'n request = Write string "'n jsvalue option" | Read string | Delete string | DbInfo

definition handle_request ::
  "(int \<Rightarrow> string) \<Rightarrow> ('n \<Rightarrow> string) \<Rightarrow> 'n state \<Rightarrow> nat \<Rightarrow> 'n request
     \<Rightarrow> int \<Rightarrow> int \<Rightarrow> (error + 'n response) \<times> 'n state" where
  "handle_request time_text num_text st bodyLength req sweepNow now =
     (if bodyLength > BODY_LIMIT then (Inl PayloadTooLarge, st)
      else
        let st = removeInactiveUsers st sweepNow in
        case req of
          Write userId json \<Rightarrow>
            (let (res, st') = write_handler num_text st userId json now in (Inr res, st'))
        | Read userId \<Rightarrow> (let (res, st') = read_handler st userId now in (Inr res, st'))
        | Delete userId \<Rightarrow> (let (res, st') = delete_handler st userId in (Inr res, st'))
        | DbInfo \<Rightarrow> (dbinfo_handler time_text num_text st, st))"

section \<open>Sequences of store operations\<close>

text \<open>
  The four operations on the store, each with the clock value it reads, and a run of them
  that also records, per key, the time of the last accepted write or read of an own entry.
\<close>

datatype 'n operation =
  Put string "'n jsvalue option" int | Get string int | Del string | Sweep int

fun apply_op :: "('n \<Rightarrow> string) \<Rightarrow> 'n state \<Rightarrow> 'n operation \<Rightarrow> 'n state" where
  "apply_op num_text st (Put userId json now) = snd (write_handler num_text st userId json now)"
| "apply_op num_text st (Get userId now) = snd (read_handler st userId now)"
| "apply_op num_text st (Del userId) = snd (delete_handler st userId)"
| "apply_op num_text st (Sweep now) = removeInactiveUsers st now"

fun last_access ::
  "('n \<Rightarrow> string) \<Rightarrow> 'n state \<Rightarrow> 'n operation \<Rightarrow> (string \<rightharpoonup> int) \<Rightarrow> (string \<rightharpoonup> int)" where
  "last_access num_text st (Put userId json now) la =
     (if status (fst (write_handler num_text st userId json now)) = 200
      then la(userId \<mapsto> now) else la)"
| "last_access num_text st (Get userId now) la =
     (case get_property st (readData st) userId of Own e \<Rightarrow> la(userId \<mapsto> now) | _ \<Rightarrow> la)"
| "last_access num_text st (Del userId) la = la"
| "last_access num_text st (Sweep now) la = la"

fun run ::
  "('n \<Rightarrow> string) \<Rightarrow> 'n state \<times> (string \<rightharpoonup> int) \<Rightarrow> 'n operation list
     \<Rightarrow> 'n state \<times> (string \<rightharpoonup> int)" where
  "run num_text (st, la) [] = (st, la)"
| "run num_text (st, la) (op # ops) =
     run num_text (apply_op num_text st op, last_access num_text st op la) ops"

text \<open>The keys of the document are distinct, as the property names of an object are.\<close>

definition wf_state :: "'n state \<Rightarrow> bool" where
  "wf_state st = distinct (map fst (readData st))"

definition expiry_inv :: "(string \<rightharpoonup> int) \<Rightarrow> 'n state \<Rightarrow> bool" where
  "expiry_inv la st =
     (\<forall>(userId, e) \<in> set (readData st). \<exists>t. la userId = Some t \<and> timeRemove e = t + THIRTY_DAYS_MS)"

definition empty_state :: "'n state" where
  "empty_state = \<lparr>data_file = None, writes = 0, proto_timeRemove = None\<rparr>"

section \<open>Properties of the sweep\<close>

lemma delete_property_filter:
  "delete_property doc k = filter (\<lambda>(k', e). k' \<noteq> k) doc"
  by (induction doc) (auto simp: delete_property_def)

lemma forEach_remove_filter:
  "distinct (map fst doc) \<Longrightarrow>
   forEach_remove now ks (doc, m) =
     (filter (\<lambda>(k, e). k \<in> set ks \<longrightarrow> \<not> timeRemove e \<le> now) doc,
      m \<or> list_ex (\<lambda>(k, e). k \<in> set ks \<and> timeRemove e \<le> now) doc)"
proof (induction ks arbitrary: doc m)
  case Nil
  then show ?case by (simp add: list_ex_iff)
next
  case (Cons k ks)
  show ?case
  proof (cases "map_of doc k")
    case None
    then have "\<And>e. (k, e) \<notin> set doc"
      by (force simp: map_of_eq_None_iff)
    then have a: "filter (\<lambda>(k', e). k' \<in> set (k # ks) \<longrightarrow> \<not> timeRemove e \<le> now) doc
         = filter (\<lambda>(k', e). k' \<in> set ks \<longrightarrow> \<not> timeRemove e \<le> now) doc"
      by (intro filter_cong) auto
    from \<open>\<And>e. (k, e) \<notin> set doc\<close>
    have b: "list_ex (\<lambda>(k', e). k' \<in> set (k # ks) \<and> timeRemove e \<le> now) doc
         = list_ex (\<lambda>(k', e). k' \<in> set ks \<and> timeRemove e \<le> now) doc"
      by (auto simp: list_ex_iff)
    show ?thesis using None Cons.IH[OF Cons.prems] a b by simp
  next
    case (Some e)
    have only: "\<And>e'. (k, e') \<in> set doc \<Longrightarrow> e' = e"
      using Some Cons.prems by (simp add: map_of_eq_Some_iff) 
    have mem: "(k, e) \<in> set doc" using Some by (rule map_of_SomeD)
    show ?thesis
    proof (cases "timeRemove e \<le> now")
      case True
      have d: "distinct (map fst (delete_property doc k))"
        using Cons.prems by (simp add: delete_property_def distinct_delete)
      have a: "filter (\<lambda>(k', e). k' \<in> set ks \<longrightarrow> \<not> timeRemove e \<le> now) (delete_property doc k)
            = filter (\<lambda>(k', e). k' \<in> set (k # ks) \<longrightarrow> \<not> timeRemove e \<le> now) doc"
        unfolding delete_property_filter filter_filter
        using only True by (intro filter_cong) auto
      have b: "list_ex (\<lambda>(k', e). k' \<in> set (k # ks) \<and> timeRemove e \<le> now) doc"
        using mem True by (auto simp: list_ex_iff)
      show ?thesis using Some True Cons.IH[OF d] a b by simp
    next
      case False
      have a: "filter (\<lambda>(k', e). k' \<in> set (k # ks) \<longrightarrow> \<not> timeRemove e \<le> now) doc
         = filter (\<lambda>(k', e). k' \<in> set ks \<longrightarrow> \<not> timeRemove e \<le> now) doc"
        using only False by (intro filter_cong) auto
      have b: "list_ex (\<lambda>(k', e). k' \<in> set (k # ks) \<and> timeRemove e \<le> now) doc
         = list_ex (\<lambda>(k', e). k' \<in> set ks \<and> timeRemove e \<le> now) doc"
        using only False by (auto simp: list_ex_iff)
      show ?thesis using Some False Cons.IH[OF Cons.prems] a b by simp
    qed
  qed
qed

lemma forEach_remove_keeps:
  "map_of doc k = Some e \<Longrightarrow> \<not> timeRemove e \<le> now \<Longrightarrow>
   map_of (fst (forEach_remove now ks (doc, m))) k = Some e"
proof (induction ks arbitrary: doc m)
  case Nil
  then show ?case by simp
next
  case (Cons k' ks)
  show ?case
  proof (cases "map_of doc k'")
    case None
    then show ?thesis using Cons by simp
  next
    case (Some e')
    show ?thesis
    proof (cases "timeRemove e' \<le> now")
      case True
      then have "k' \<noteq> k" using Some Cons.prems by auto
      then have "map_of (delete_property doc k') k = Some e"
        using Cons.prems(1) by (simp add: delete_property_def)
      then show ?thesis using Some True Cons.IH Cons.prems(2) by simp
    next
      case False
      then show ?thesis using Some Cons by simp
    qed
  qed
qed

lemma readData_writeData [simp]: "readData (writeData doc st) = doc"
  by (simp add: readData_def writeData_def)

lemma removeInactiveUsers_eq:
  assumes "wf_state st"
  shows "removeInactiveUsers st now =
     (if list_ex (\<lambda>(userId, e). timeRemove e \<le> now) (readData st)
      then writeData (filter (\<lambda>(userId, e). \<not> timeRemove e \<le> now) (readData st)) st
      else st)"
proof -
  let ?doc = "readData st"
  have d: "distinct (map fst ?doc)" using assms by (simp add: wf_state_def)
  have a: "filter (\<lambda>(k, e). k \<in> set (map fst ?doc) \<longrightarrow> \<not> timeRemove e \<le> now) ?doc
         = filter (\<lambda>(k, e). \<not> timeRemove e \<le> now) ?doc"
    by (intro filter_cong) force+
  have b: "list_ex (\<lambda>(k, e). k \<in> set (map fst ?doc) \<and> timeRemove e \<le> now) ?doc
         = list_ex (\<lambda>(k, e). timeRemove e \<le> now) ?doc"
    by (force simp: list_ex_iff)
  show ?thesis
    unfolding removeInactiveUsers_def Let_def forEach_remove_filter[OF d] a b by simp
qed

lemma removeInactiveUsers_keeps:
  assumes "map_of (readData st) userId = Some e" and "\<not> timeRemove e \<le> now"
  shows "map_of (readData (removeInactiveUsers st now)) userId = Some e"
proof -
  obtain doc' modified
    where r: "forEach_remove now (map fst (readData st)) (readData st, False) = (doc', modified)"
    by (cases "forEach_remove now (map fst (readData st)) (readData st, False)")
  have "map_of doc' userId = Some e"
    using forEach_remove_keeps[OF assms, of "map fst (readData st)" False] r by simp
  then show ?thesis
    using assms(1) r by (simp add: removeInactiveUsers_def)
qed


lemma forEach_remove_subset:
  "set (fst (forEach_remove now ks (doc, m))) \<subseteq> set doc"
proof (induction ks arbitrary: doc m)
  case Nil
  then show ?case by simp
next
  case (Cons k ks)
  have "set (delete_property doc k) \<subseteq> set doc"
    by (auto simp: delete_property_filter)
  then show ?case
    using Cons.IH[of "delete_property doc k" True] Cons.IH[of doc m]
    by (auto split: option.splits)
qed

lemma removeInactiveUsers_subset:
  "set (readData (removeInactiveUsers st now)) \<subseteq> set (readData st)"
proof -
  obtain doc' modified
    where r: "forEach_remove now (map fst (readData st)) (readData st, False) = (doc', modified)"
    by (cases "forEach_remove now (map fst (readData st)) (readData st, False)")
  have "set doc' \<subseteq> set (readData st)"
    using forEach_remove_subset[of now "map fst (readData st)" "readData st" False] r by simp
  then show ?thesis
    using r by (simp add: removeInactiveUsers_def)
qed

section \<open>Properties of the property assignment\<close>

lemma set_insert_new: "set (insert_new k e doc) = insert (k, e) (set doc)"
  by (induction doc) (auto split: if_splits)


lemma distinct_insert_new:
  "k \<notin> fst ` set doc \<Longrightarrow> distinct (map fst doc) \<Longrightarrow> distinct (map fst (insert_new k e doc))"
  by (induction doc) (auto simp: set_insert_new image_iff split: if_splits)

lemma set_update_distinct:
  "distinct (map fst al) \<Longrightarrow>
   set (AList.update k v al) = insert (k, v) {p \<in> set al. fst p \<noteq> k}"
  by (induction al) force+


lemma set_property_inv:
  assumes "distinct (map fst doc)"
      and "\<forall>(k, e') \<in> set doc. \<exists>t. la k = Some t \<and> timeRemove e' = t + THIRTY_DAYS_MS"
      and "timeRemove e = now + THIRTY_DAYS_MS"
  shows "distinct (map fst (set_property doc userId e))
       \<and> (\<forall>(k, e') \<in> set (set_property doc userId e).
            \<exists>t. (la(userId \<mapsto> now)) k = Some t \<and> timeRemove e' = t + THIRTY_DAYS_MS)"
proof (cases "map_of doc userId")
  case None
  then have notin: "userId \<notin> fst ` set doc" by (simp add: map_of_eq_None_iff)
  show ?thesis
  proof (cases "userId = ''__proto__''")
    case True
    then have "set_property doc userId e = doc"
      using None by (simp add: set_property_def)
    then show ?thesis
      using notin assms by force
  next
    case False
    then have "set_property doc userId e = insert_new userId e doc"
      using None by (simp add: set_property_def)
    then show ?thesis
      using notin assms by (force simp: set_insert_new distinct_insert_new)
  qed
next
  case (Some old)
  then have "set_property doc userId e = AList.update userId e doc"
    by (simp add: set_property_def)
  then show ?thesis
    using assms by (auto simp: set_update_distinct distinct_update)
qed

section \<open>Properties of the handlers\<close>

lemma handle_request_simps:
  "BODY_LIMIT < bodyLength \<Longrightarrow>
   handle_request time_text num_text st bodyLength req sweepNow now = (Inl PayloadTooLarge, st)"
  "bodyLength \<le> BODY_LIMIT \<Longrightarrow>
   handle_request time_text num_text st bodyLength (Write userId json) sweepNow now =
     (Inr (fst (write_handler num_text (removeInactiveUsers st sweepNow) userId json now)),
      snd (write_handler num_text (removeInactiveUsers st sweepNow) userId json now))"
  "bodyLength \<le> BODY_LIMIT \<Longrightarrow>
   handle_request time_text num_text st bodyLength (Read userId) sweepNow now =
     (Inr (fst (read_handler (removeInactiveUsers st sweepNow) userId now)),
      snd (read_handler (removeInactiveUsers st sweepNow) userId now))"
  "bodyLength \<le> BODY_LIMIT \<Longrightarrow>
   handle_request time_text num_text st bodyLength (Delete userId) sweepNow now =
     (Inr (fst (delete_handler (removeInactiveUsers st sweepNow) userId)),
      snd (delete_handler (removeInactiveUsers st sweepNow) userId))"
  "bodyLength \<le> BODY_LIMIT \<Longrightarrow>
   handle_request time_text num_text st bodyLength DbInfo sweepNow now =
     (dbinfo_handler time_text num_text (removeInactiveUsers st sweepNow), removeInactiveUsers st sweepNow)"
  by (simp_all add: handle_request_def Let_def split: prod.splits)

lemma write_handler_accepts:
  assumes "truthy num_text v" and "byteLength (stringify num_text v) \<le> MAX_JSON_SIZE"
  shows "write_handler num_text st userId (Some v) now =
           (res_send 200 (''Data for user '' @ userId @ '' has been written''),
            writeData (set_property (readData st) userId
                         \<lparr>timeRemove = now + THIRTY_DAYS_MS, data = persisted v\<rparr>) st)"
  using assms by (simp add: write_handler_def Let_def)

lemma read_handler_own:
  assumes "map_of (readData st) userId = Some e"
  shows "read_handler st userId now =
           (res_json (Some (data e)),
            writeData (AList.update userId (e\<lparr>timeRemove := now + THIRTY_DAYS_MS\<rparr>)
                         (readData st)) st)"
  using assms by (simp add: read_handler_def get_property_def Let_def)


lemma escape_char_a: "escape_char (CHR ''a'') = ''a''"
  by (simp add: escape_char_def)

lemma byteLength_stringify_replicate:
  "byteLength (stringify num_text (VStr (replicate n (CHR ''a'')))) = n + 2"
  by (simp add: byteLength_def stringify_def quote_def escape_char_a length_concat
                sum_list_replicate)

lemma length_join:
  "length (join sep xs) = sum_list (map length xs) + (length xs - 1) * length sep"
  by (induction sep xs rule: join.induct) auto

lemma byteLength_stringify_numbers:
  assumes "0 < n"
  shows "byteLength (stringify num_text (VArr (replicate n (VNum x))))
           = n * length (num_text x) + n + 1"
  using assms
  by (simp add: byteLength_def stringify_def Let_def length_join sum_list_replicate)

lemma show_int_1e20: "length (show_int 100000000000000000000) = 21"
  by (simp add: show_int_def)

lemma removeInactiveUsers_empty: "removeInactiveUsers empty_state now = empty_state"
  by (simp add: removeInactiveUsers_def readData_def empty_state_def)

lemma falsy_iff:
  "\<not> truthy num_text v \<longleftrightarrow>
     v = VNull \<or> v = VBool False \<or> (\<exists>n. v = VNum n \<and> num_text n = ''0'') \<or> v = VStr []"
  by (cases v) auto

lemma falsy_small: "\<not> truthy num_text v \<Longrightarrow> byteLength (stringify num_text v) \<le> 5"
  by (auto simp: falsy_iff byteLength_def stringify_def quote_def)

lemma show_nat_nonempty: "show_nat n \<noteq> []"
  by (subst show_nat.simps) simp

lemma digit_zero_iff: "n < 10 \<Longrightarrow> digit n = CHR ''0'' \<longleftrightarrow> n = 0"
proof -
  assume "n < 10"
  then have "n \<in> {0, 1, 2, 3, 4, 5, 6, 7, 8, 9}" by auto
  then show ?thesis by (auto simp: digit_def)
qed

lemma show_nat_zero_iff: "show_nat n = ''0'' \<longleftrightarrow> n = 0"
proof (cases "n < 10")
  case True
  then show ?thesis
    using digit_zero_iff[OF True] by (subst show_nat.simps) simp
next
  case False
  have "show_nat n = show_nat (n div 10) @ [digit (n mod 10)]"
    using False by (subst show_nat.simps) simp
  then have "length (show_nat n) \<ge> 2"
    using show_nat_nonempty[of "n div 10"]
    by (cases "show_nat (n div 10)") simp_all
  then show ?thesis using False by auto
qed

lemma show_int_zero_iff: "show_int i = ''0'' \<longleftrightarrow> i = 0"
proof (cases "i < 0")
  case True
  then show ?thesis by (simp add: show_int_def)
next
  case False
  then have "show_int i = show_nat (nat i)" by (simp only: show_int_def if_False)
  then show ?thesis
    using False by (simp only: show_nat_zero_iff) auto
qed

lemma write_handler_oversize:
  assumes "MAX_JSON_SIZE < byteLength (stringify num_text v)"
  shows "write_handler num_text st userId (Some v) now
           = (res_send 400 ''JSON size exceeds the maximum limit of 5 MB'', st)"
proof -
  have "truthy num_text v"
    using falsy_small[of num_text v] assms by (auto simp: MAX_JSON_SIZE_def)
  then show ?thesis
    using assms by (simp add: write_handler_def)
qed

subsection \<open>Keys that are not inherited property names\<close>

text \<open>
  For a key that \<^verbatim>\<open>Object.prototype\<close> does not define, \<^verbatim>\<open>data[userId]\<close> is the own entry or
  \<^verbatim>\<open>undefined\<close>. For such keys a read after the expiry returns the empty object, a delete of
  an absent key is answered with 404 and changes nothing, however often it is repeated, and
  a delete of a present key removes the entry and writes the file.
\<close>

lemma get_property_ordinary:
  assumes "userId \<notin> set (''timeRemove'' # object_prototype_names)"
  shows "get_property st doc userId
           = (case map_of doc userId of Some e \<Rightarrow> Own e | None \<Rightarrow> Undefined)"
  using assms by (simp add: get_property_def)

lemma expired_read_returns_empty_object:
  assumes "wf_state st"
      and "map_of (readData st) userId = Some e"
      and "timeRemove e \<le> sweepNow"
      and "userId \<notin> set (''timeRemove'' # object_prototype_names)"
      and "bodyLength \<le> BODY_LIMIT"
  shows "fst (handle_request time_text num_text st bodyLength (Read userId) sweepNow now)
           = Inr (res_json (Some (JObj [])))"
proof -
  have "(userId, e) \<in> set (readData st)"
    using assms(2) by (rule map_of_SomeD)
  then have ex: "list_ex (\<lambda>(userId, e). timeRemove e \<le> sweepNow) (readData st)"
    using assms(3) by (auto simp: list_ex_iff)
  have only: "\<And>e'. (userId, e') \<in> set (readData st) \<Longrightarrow> e' = e"
    using assms(1,2) by (simp add: wf_state_def map_of_eq_Some_iff)
  have "userId \<notin> fst ` set (filter (\<lambda>(userId, e). \<not> timeRemove e \<le> sweepNow) (readData st))"
    using only assms(3) by force
  then have "map_of (readData (removeInactiveUsers st sweepNow)) userId = None"
    using ex by (simp add: removeInactiveUsers_eq[OF assms(1)] map_of_eq_None_iff)
  then show ?thesis
    by (simp add: handle_request_simps assms(5) read_handler_def
                  get_property_ordinary[OF assms(4)])
qed

lemma delete_absent:
  assumes "map_of (readData st) userId = None"
      and "userId \<notin> set (''timeRemove'' # object_prototype_names)"
  shows "delete_handler st userId = (res_send 404 (''No data found for user '' @ userId), st)"
  using assms by (simp add: delete_handler_def get_property_ordinary)

lemma delete_absent_repeated:
  assumes "map_of (readData st) userId = None"
      and "userId \<notin> set (''timeRemove'' # object_prototype_names)"
  shows "((\<lambda>s. snd (delete_handler s userId)) ^^ n) st = st
       \<and> delete_handler (((\<lambda>s. snd (delete_handler s userId)) ^^ n) st) userId
           = (res_send 404 (''No data found for user '' @ userId), st)"
proof -
  have "((\<lambda>s. snd (delete_handler s userId)) ^^ n) st = st"
    by (induction n) (simp_all add: delete_absent[OF assms])
  then show ?thesis
    by (simp add: delete_absent[OF assms])
qed

lemma delete_present:
  assumes "map_of (readData st) userId = Some e"
  shows "delete_handler st userId
           = (res_send 200 (''Data for user '' @ userId @ '' has been deleted''),
              writeData (delete_property (readData st) userId) st)
       \<and> map_of (delete_property (readData st) userId) userId = None"
  using assms by (simp add: delete_handler_def get_property_def delete_property_def delete_conv')

subsection \<open>The key \<^verbatim>\<open>__proto__\<close>\<close>

text \<open>
  A write to the key \<^verbatim>\<open>__proto__\<close> is answered with 200 but stores no entry, and the read
  that follows answers without a body and leaves \<^verbatim>\<open>Object.prototype.timeRemove\<close> behind.
\<close>

lemma size_of_a1: "byteLength (stringify show_int (VObj [(''a'', VNum 1)])) = 7"
  by (simp add: byteLength_def stringify_def quote_def escape_char_def show_int_def digit_def)

lemma write_to_proto_key_is_lost:
  "handle_request show_int show_int empty_state 16
     (Write ''__proto__'' (Some (VObj [(''a'', VNum 1)]))) 0 0
     = (Inr \<lparr>status = 200, body = Text ''Data for user __proto__ has been written''\<rparr>,
        \<lparr>data_file = Some [], writes = 1, proto_timeRemove = None\<rparr>)
   \<and> handle_request show_int show_int \<lparr>data_file = Some [], writes = 1, proto_timeRemove = None\<rparr>
        0 (Read ''__proto__'') 5 5
     = (Inr \<lparr>status = 200, body = NoBody\<rparr>,
        \<lparr>data_file = Some [], writes = 2, proto_timeRemove = Some 2592000005\<rparr>)"
proof -
  have w: "handle_request show_int show_int empty_state 16
             (Write ''__proto__'' (Some (VObj [(''a'', VNum 1)]))) 0 0
     = (Inr \<lparr>status = 200, body = Text ''Data for user __proto__ has been written''\<rparr>,
        \<lparr>data_file = Some [], writes = 1, proto_timeRemove = None\<rparr>)"
    unfolding handle_request_def removeInactiveUsers_empty
    by (simp add: BODY_LIMIT_def write_handler_def size_of_a1 MAX_JSON_SIZE_def
                  set_property_def readData_def writeData_def empty_state_def res_send_def
                  show_int_def digit_def)
  have r: "handle_request show_int show_int \<lparr>data_file = Some [], writes = 1, proto_timeRemove = None\<rparr>
        0 (Read ''__proto__'') 5 5
     = (Inr \<lparr>status = 200, body = NoBody\<rparr>,
        \<lparr>data_file = Some [], writes = 2, proto_timeRemove = Some 2592000005\<rparr>)"
    by (simp add: handle_request_def BODY_LIMIT_def removeInactiveUsers_def readData_def
                  writeData_def read_handler_def get_property_def object_prototype_names_def
                  res_json_def THIRTY_DAYS_MS_def)
  show ?thesis
    using w r by (rule conjI)
qed

subsection \<open>The size information\<close>

text \<open>
  Whenever \<^verbatim>\<open>/dbinfo\<close> answers, the answer is status 200 with a text body; the numbers behind
  it are the byte size of the file and \<open>MAX_DB_SIZE\<close> minus that size.
\<close>

lemma dbinfo_body_is_text:
  "dbinfo_handler time_text num_text st = Inr res \<Longrightarrow> status res = 200 \<and> (\<exists>html. body res = Text html)"
  by (auto simp: dbinfo_handler_def res_send_def Let_def split: sum.splits)

lemma dbinfo_sizes:
  "getFileSizeInBytes time_text num_text st = Inr usedSize \<Longrightarrow>
   (\<exists>doc. data_file st = Some doc
      \<and> usedSize = byteLength (stringify2 (case_sum time_text num_text) (json_of_document doc)))
   \<and> getRemainingDbSpace (int usedSize) = 2147483648 - int usedSize"
  by (auto simp: getFileSizeInBytes_def getRemainingDbSpace_def MAX_DB_SIZE_def
           split: option.splits)

subsection \<open>The expiry invariant, step by step\<close>

lemma write_handler_inv:
  assumes "wf_state st" and "expiry_inv la st"
  shows "wf_state (snd (write_handler num_text st userId json now))
       \<and> expiry_inv (last_access num_text st (Put userId json now) la)
                     (snd (write_handler num_text st userId json now))"
proof (cases "\<exists>v. json = Some v \<and> truthy num_text v
                    \<and> byteLength (stringify num_text v) \<le> MAX_JSON_SIZE")
  case True
  then obtain v where v: "json = Some v" "truthy num_text v"
      "byteLength (stringify num_text v) \<le> MAX_JSON_SIZE"
    by blast
  show ?thesis
    using assms set_property_inv[of "readData st" la
            "\<lparr>timeRemove = now + THIRTY_DAYS_MS, data = persisted v\<rparr>" now userId]
    by (simp add: v write_handler_accepts wf_state_def expiry_inv_def res_send_def)
next
  case False
  then have "write_handler num_text st userId json now
               = (res_send 400 ''Missing json body parameter'', st)
           \<or> write_handler num_text st userId json now
                = (res_send 400 ''JSON size exceeds the maximum limit of 5 MB'', st)"
    by (cases json) (auto simp: write_handler_def Let_def)
  then show ?thesis
    using assms by (auto simp: res_send_def)
qed

lemma read_handler_inv:
  assumes "wf_state st" and "expiry_inv la st"
  shows "wf_state (snd (read_handler st userId now))
       \<and> expiry_inv (last_access num_text st (Get userId now) la)
                     (snd (read_handler st userId now))"
proof (cases "get_property st (readData st) userId")
  case (Own e)
  then have own: "map_of (readData st) userId = Some e"
    by (auto simp: get_property_def split: option.splits if_splits)
  show ?thesis
    using assms Own
    by (auto simp: read_handler_own[OF own] wf_state_def expiry_inv_def
                   set_update_distinct distinct_update)
next
  case Builtin
  then show ?thesis
    using assms
    by (auto simp: read_handler_def wf_state_def expiry_inv_def readData_def writeData_def)
next
  case (ProtoNum n)
  then show ?thesis
    using assms
    by (auto simp: read_handler_def wf_state_def expiry_inv_def readData_def writeData_def)
next
  case Undefined
  then show ?thesis
    using assms by (simp add: read_handler_def)
qed

lemma delete_handler_inv:
  assumes "wf_state st" and "expiry_inv la st"
  shows "wf_state (snd (delete_handler st userId))
       \<and> expiry_inv la (snd (delete_handler st userId))"
  using assms
  by (auto simp: delete_handler_def Let_def wf_state_def expiry_inv_def
                 delete_property_filter distinct_map_filter)

lemma removeInactiveUsers_inv:
  assumes "wf_state st" and "expiry_inv la st"
  shows "wf_state (removeInactiveUsers st now) \<and> expiry_inv la (removeInactiveUsers st now)"
  using assms
  by (auto simp: removeInactiveUsers_eq wf_state_def expiry_inv_def distinct_map_filter)

lemma apply_op_inv:
  assumes "wf_state st" and "expiry_inv la st"
  shows "wf_state (apply_op num_text st op)
       \<and> expiry_inv (last_access num_text st op la) (apply_op num_text st op)"
proof (cases op)
  case (Put userId json now)
  then show ?thesis using write_handler_inv[OF assms] by simp
next
  case (Get userId now)
  then show ?thesis using read_handler_inv[OF assms] by simp
next
  case (Del userId)
  then show ?thesis using delete_handler_inv[OF assms] by simp
next
  case (Sweep now)
  then show ?thesis using removeInactiveUsers_inv[OF assms] by simp
qed

subsection \<open>The order of the keys, on an example\<close>

lemma set_property_order_example:
  "set_property
     (set_property
        (set_property [] ''b'' \<lparr>timeRemove = 1, data = (JNull :: int json)\<rparr>)
        ''10'' \<lparr>timeRemove = 2, data = JNull\<rparr>)
     ''2'' \<lparr>timeRemove = 3, data = JNull\<rparr>
   = [(''2'', \<lparr>timeRemove = 3, data = JNull\<rparr>),
      (''10'', \<lparr>timeRemove = 2, data = JNull\<rparr>),
      (''b'', \<lparr>timeRemove = 1, data = JNull\<rparr>)]"
  by (simp add: set_property_def precedes_def array_index_def is_digit_def decimal_value_def)

section \<open>The properties of the specification\<close>

text \<open>
  C4. On a document (its keys distinct) and for every clock value \<open>now\<close>, the sweep keeps
  exactly the entries with \<open>timeRemove > now\<close>, so an entry whose \<open>timeRemove\<close> equals \<open>now\<close>
  is removed; it calls \<open>writeData\<close> (once) if and only if some entry was removed, and
  otherwise the state, file included, is left as it was.
\<close>

theorem sweep_removes_exactly_expired:
  assumes "wf_state st"
  shows "readData (removeInactiveUsers st now)
           = filter (\<lambda>(userId, e). \<not> timeRemove e \<le> now) (readData st)
       \<and> removeInactiveUsers st now =
           (if list_ex (\<lambda>(userId, e). timeRemove e \<le> now) (readData st)
            then writeData (filter (\<lambda>(userId, e). \<not> timeRemove e \<le> now) (readData st)) st
            else st)"
proof -
  have "\<not> list_ex (\<lambda>(userId, e). timeRemove e \<le> now) (readData st) \<Longrightarrow>
        filter (\<lambda>(userId, e). \<not> timeRemove e \<le> now) (readData st) = readData st"
    by (auto simp: list_ex_iff filter_id_conv)
  then show ?thesis
    using removeInactiveUsers_eq[OF assms, of now] by simp
qed

theorem sweep_removes_exactly_expired_witness:
  "wf_state \<lparr>data_file = Some [(''a'', \<lparr>timeRemove = 10, data = JNull\<rparr>),
                                (''b'', \<lparr>timeRemove = 11, data = JNum (7::int)\<rparr>)],
             writes = 0, proto_timeRemove = None\<rparr>
   \<and> removeInactiveUsers
         \<lparr>data_file = Some [(''a'', \<lparr>timeRemove = 10, data = JNull\<rparr>),
                            (''b'', \<lparr>timeRemove = 11, data = JNum (7::int)\<rparr>)],
          writes = 0, proto_timeRemove = None\<rparr> 10
       = \<lparr>data_file = Some [(''b'', \<lparr>timeRemove = 11, data = JNum 7\<rparr>)],
          writes = 1, proto_timeRemove = None\<rparr>
   \<and> removeInactiveUsers
         \<lparr>data_file = Some [(''a'', \<lparr>timeRemove = 10, data = JNull\<rparr>),
                            (''b'', \<lparr>timeRemove = 11, data = JNum (7::int)\<rparr>)],
          writes = 0, proto_timeRemove = None\<rparr> 9
       = \<lparr>data_file = Some [(''a'', \<lparr>timeRemove = 10, data = JNull\<rparr>),
                            (''b'', \<lparr>timeRemove = 11, data = JNum 7\<rparr>)],
          writes = 0, proto_timeRemove = None\<rparr>"
  using sweep_removes_exactly_expired
          [of "\<lparr>data_file = Some [(''a'', \<lparr>timeRemove = 10, data = JNull\<rparr>),
                                 (''b'', \<lparr>timeRemove = 11, data = JNum (7::int)\<rparr>)],
               writes = 0, proto_timeRemove = None\<rparr>" 10]
        sweep_removes_exactly_expired
          [of "\<lparr>data_file = Some [(''a'', \<lparr>timeRemove = 10, data = JNull\<rparr>),
                                 (''b'', \<lparr>timeRemove = 11, data = JNum (7::int)\<rparr>)],
               writes = 0, proto_timeRemove = None\<rparr>" 9]
  by (simp add: wf_state_def readData_def writeData_def)




text \<open>
  C3. Let the store hold an entry for the key, written at \<open>writeTime\<close>. A read request that is
  swept before the entry's expiry returns the value and resets the entry's \<open>timeRemove\<close> to
  \<open>readTime + THIRTY_DAYS_MS\<close>; a later read request at \<open>writeTime + THIRTY_DAYS_MS + 1\<close>, past
  the original expiry but before the refreshed one, still returns the value. (Both requests
  pass the body parser, as every request without a body does.)
\<close>

theorem read_refreshes_expiry:
  assumes "map_of (readData st) userId = Some e"
      and "timeRemove e = writeTime + THIRTY_DAYS_MS"
      and "sweepNow < writeTime + THIRTY_DAYS_MS"
      and "writeTime + THIRTY_DAYS_MS + 1 < readTime + THIRTY_DAYS_MS"
      and "bodyLength \<le> BODY_LIMIT"
      and "bodyLength' \<le> BODY_LIMIT"
  shows "fst (handle_request time_text num_text st bodyLength (Read userId) sweepNow readTime)
           = Inr (res_json (Some (data e)))
       \<and> map_of (readData (snd (handle_request time_text num_text st bodyLength
                                   (Read userId) sweepNow readTime))) userId
           = Some (e\<lparr>timeRemove := readTime + THIRTY_DAYS_MS\<rparr>)
       \<and> fst (handle_request time_text num_text
                (snd (handle_request time_text num_text st bodyLength (Read userId) sweepNow readTime))
                bodyLength' (Read userId) (writeTime + THIRTY_DAYS_MS + 1) laterNow)
           = Inr (res_json (Some (data e)))"
proof -
  let ?st0 = "removeInactiveUsers st sweepNow"
  let ?e' = "e\<lparr>timeRemove := readTime + THIRTY_DAYS_MS\<rparr>"
  let ?st1 = "writeData (AList.update userId ?e' (readData ?st0)) ?st0"
  have own: "map_of (readData ?st0) userId = Some e"
    using assms(1,2,3) by (intro removeInactiveUsers_keeps) simp_all
  have first: "handle_request time_text num_text st bodyLength (Read userId) sweepNow readTime
                 = (Inr (res_json (Some (data e))), ?st1)"
    by (simp add: handle_request_simps assms(5) read_handler_own[OF own])
  have refreshed: "map_of (readData ?st1) userId = Some ?e'"
    by (simp add: update_conv')
  have "map_of (readData (removeInactiveUsers ?st1 (writeTime + THIRTY_DAYS_MS + 1))) userId
          = Some ?e'"
    using refreshed assms(4) by (intro removeInactiveUsers_keeps) simp_all
  then have "fst (handle_request time_text num_text ?st1 bodyLength' (Read userId)
                    (writeTime + THIRTY_DAYS_MS + 1) laterNow)
          = Inr (res_json (Some (data e)))"
    by (simp add: handle_request_simps assms(6) read_handler_own)
  then show ?thesis
    using refreshed by (simp add: first)
qed

theorem read_refreshes_expiry_witness:
  "map_of (readData \<lparr>data_file = Some [(''u1'', \<lparr>timeRemove = 2592000000, data = JStr ''v''\<rparr>)],
                     writes = 1, proto_timeRemove = None\<rparr>) ''u1''
     = Some \<lparr>timeRemove = 2592000000, data = JStr ''v''\<rparr>
   \<and> timeRemove \<lparr>timeRemove = 2592000000, data = JStr ''v''\<rparr> = 0 + THIRTY_DAYS_MS
   \<and> (1000::int) < 0 + THIRTY_DAYS_MS
   \<and> (0::int) + THIRTY_DAYS_MS + 1 < 1000 + THIRTY_DAYS_MS
   \<and> (0::nat) \<le> BODY_LIMIT
   \<and> fst (handle_request show_int show_int
            (snd (handle_request show_int show_int
                    \<lparr>data_file = Some [(''u1'', \<lparr>timeRemove = 2592000000, data = JStr ''v''\<rparr>)],
                     writes = 1, proto_timeRemove = None\<rparr>
                    0 (Read ''u1'') 1000 1000))
            0 (Read ''u1'') 2592000001 2592000001)
       = Inr \<lparr>status = 200, body = Json (JStr ''v'')\<rparr>"
  using read_refreshes_expiry
          [where st = "\<lparr>data_file = Some [(''u1'', \<lparr>timeRemove = 2592000000,
                                                     data = JStr ''v''\<rparr>)],
                       writes = 1, proto_timeRemove = None\<rparr>"
             and userId = "''u1''" and e = "\<lparr>timeRemove = 2592000000, data = JStr ''v''\<rparr>"
             and writeTime = 0 and sweepNow = 1000 and readTime = 1000
             and bodyLength = 0 and bodyLength' = 0 and laterNow = 2592000001
             and num_text = show_int and time_text = show_int]
  by (simp add: readData_def THIRTY_DAYS_MS_def BODY_LIMIT_def res_json_def)

text \<open>
  C6, as stated, fails for the request. A write of a string of 5242879 letters comes in a
  body of 5242890 bytes: the body parser answers 413, not 400. A write of an array of 250000
  numbers \<^verbatim>\<open>1e20\<close>, 1250010 bytes in the body and 5500001 bytes when serialized, is answered
  with 400 by the handler, but the sweep of the same request has removed an expired entry
  and written the file: the store is not what it was.
\<close>

theorem oversize_write_rejected_counterexample:
  "handle_request show_int show_int empty_state 5242890
     (Write ''u1'' (Some (VStr (replicate 5242879 (CHR ''a''))))) 0 0
     = (Inl PayloadTooLarge, empty_state)
   \<and> handle_request show_int show_int
       \<lparr>data_file = Some [(''old'', \<lparr>timeRemove = 10, data = JNull\<rparr>)],
        writes = 1, proto_timeRemove = None\<rparr>
       1250010
       (Write ''u1'' (Some (VArr (replicate 250000 (VNum 100000000000000000000))))) 10 10
     = (Inr (res_send 400 ''JSON size exceeds the maximum limit of 5 MB''),
        \<lparr>data_file = Some [], writes = 2, proto_timeRemove = None\<rparr>)
   \<and> \<lparr>data_file = Some [], writes = 2, proto_timeRemove = None\<rparr>
       \<noteq> \<lparr>data_file = Some [(''old'', \<lparr>timeRemove = 10, data = (JNull :: int json)\<rparr>)],
          writes = 1, proto_timeRemove = None\<rparr>"
proof -
  have limit: "BODY_LIMIT < 5242890" "(1250010::nat) \<le> BODY_LIMIT"
    by (simp_all add: BODY_LIMIT_def)
  have big: "MAX_JSON_SIZE
               < byteLength (stringify show_int
                               (VArr (replicate 250000 (VNum 100000000000000000000))))"
    by (simp add: byteLength_stringify_numbers show_int_1e20 MAX_JSON_SIZE_def)
  have sweep: "removeInactiveUsers
                 \<lparr>data_file = Some [(''old'', \<lparr>timeRemove = 10, data = (JNull :: int json)\<rparr>)],
                  writes = 1, proto_timeRemove = None\<rparr> 10
               = \<lparr>data_file = Some [], writes = 2, proto_timeRemove = None\<rparr>"
    by (simp add: removeInactiveUsers_def readData_def writeData_def delete_property_def)
  have first: "handle_request show_int show_int empty_state 5242890
     (Write ''u1'' (Some (VStr (replicate 5242879 (CHR ''a''))))) 0 0
     = (Inl PayloadTooLarge, empty_state)"
    by (simp add: handle_request_simps limit)
  have second: "handle_request show_int show_int
       \<lparr>data_file = Some [(''old'', \<lparr>timeRemove = 10, data = JNull\<rparr>)],
        writes = 1, proto_timeRemove = None\<rparr>
       1250010
       (Write ''u1'' (Some (VArr (replicate 250000 (VNum 100000000000000000000))))) 10 10
     = (Inr (res_send 400 ''JSON size exceeds the maximum limit of 5 MB''),
        \<lparr>data_file = Some [], writes = 2, proto_timeRemove = None\<rparr>)"
    unfolding handle_request_simps(2)[OF limit(2)] write_handler_oversize[OF big] sweep
    by simp
  show ?thesis
    using first second by simp
qed

text \<open>
  C6, amended. A write whose serialized payload has more than \<open>MAX_JSON_SIZE\<close> bytes stores
  nothing of the payload. The handler answers 400 with the size message and returns the
  state it was given. For the whole request: if the body exceeds the parser's limit the
  answer is 413 and the state is untouched, otherwise the answer is the handler's 400 and
  the state is the one the sweep alone produces; in both cases every entry of the store
  afterwards was in the store before.
\<close>

theorem oversize_write_rejected:
  assumes "MAX_JSON_SIZE < byteLength (stringify num_text v)"
  shows "write_handler num_text st userId (Some v) now
           = (res_send 400 ''JSON size exceeds the maximum limit of 5 MB'', st)
       \<and> handle_request time_text num_text st bodyLength (Write userId (Some v)) sweepNow now
           = (if BODY_LIMIT < bodyLength then (Inl PayloadTooLarge, st)
              else (Inr (res_send 400 ''JSON size exceeds the maximum limit of 5 MB''),
                    removeInactiveUsers st sweepNow))
       \<and> set (readData (snd (handle_request time_text num_text st bodyLength
                                (Write userId (Some v)) sweepNow now)))
           \<subseteq> set (readData st)"
proof -
  have handler: "write_handler num_text s userId (Some v) now
                   = (res_send 400 ''JSON size exceeds the maximum limit of 5 MB'', s)" for s
    using assms by (rule write_handler_oversize)
  have request: "handle_request time_text num_text st bodyLength (Write userId (Some v)) sweepNow now
           = (if BODY_LIMIT < bodyLength then (Inl PayloadTooLarge, st)
              else (Inr (res_send 400 ''JSON size exceeds the maximum limit of 5 MB''),
                    removeInactiveUsers st sweepNow))"
    by (simp add: handle_request_simps handler)
  have "set (readData (snd (handle_request time_text num_text st bodyLength
                              (Write userId (Some v)) sweepNow now)))
           \<subseteq> set (readData st)"
    unfolding request using removeInactiveUsers_subset[of st sweepNow] by simp
  with handler[of st] request show ?thesis
    by simp
qed

theorem oversize_write_rejected_witness:
  "MAX_JSON_SIZE < byteLength (stringify show_int
                                 (VArr (replicate 250000 (VNum 100000000000000000000))))
   \<and> write_handler show_int
         \<lparr>data_file = Some [(''u1'', \<lparr>timeRemove = 2592000000, data = JStr ''v''\<rparr>)],
          writes = 1, proto_timeRemove = None\<rparr>
         ''u1'' (Some (VArr (replicate 250000 (VNum 100000000000000000000)))) 7
       = (\<lparr>status = 400, body = Text ''JSON size exceeds the maximum limit of 5 MB''\<rparr>,
          \<lparr>data_file = Some [(''u1'', \<lparr>timeRemove = 2592000000, data = JStr ''v''\<rparr>)],
           writes = 1, proto_timeRemove = None\<rparr>)
   \<and> handle_request show_int show_int
         \<lparr>data_file = Some [(''u1'', \<lparr>timeRemove = 2592000000, data = JStr ''v''\<rparr>)],
          writes = 1, proto_timeRemove = None\<rparr>
         1250010
         (Write ''u1'' (Some (VArr (replicate 250000 (VNum 100000000000000000000))))) 7 7
       = (Inr \<lparr>status = 400, body = Text ''JSON size exceeds the maximum limit of 5 MB''\<rparr>,
          \<lparr>data_file = Some [(''u1'', \<lparr>timeRemove = 2592000000, data = JStr ''v''\<rparr>)],
           writes = 1, proto_timeRemove = None\<rparr>)"
proof -
  have big: "MAX_JSON_SIZE
               < byteLength (stringify show_int
                               (VArr (replicate 250000 (VNum 100000000000000000000))))"
    by (simp add: byteLength_stringify_numbers show_int_1e20 MAX_JSON_SIZE_def)
  show ?thesis
    using big
          oversize_write_rejected[OF big,
            where st = "\<lparr>data_file = Some [(''u1'', \<lparr>timeRemove = 2592000000,
                                                      data = JStr ''v''\<rparr>)],
                        writes = 1, proto_timeRemove = None\<rparr>"
              and userId = "''u1''" and now = 7 and bodyLength = 1250010 and sweepNow = 7
              and time_text = show_int]
    by (simp add: removeInactiveUsers_def readData_def BODY_LIMIT_def res_send_def)
qed

text \<open>
  C9. The falsy JSON values are exactly \<open>null\<close>, \<open>false\<close>, the number whose text is \<open>0\<close> and
  the empty string. A write of one of them gets the response of a write without the \<open>json\<close>
  field, status 400 with "Missing json body parameter", and the state is unchanged. The
  empty object is accepted: status 200, and the entry is stored.
\<close>

theorem falsy_json_rejected:
  "(\<not> truthy num_text v \<longleftrightarrow>
      v = VNull \<or> v = VBool False \<or> (\<exists>n. v = VNum n \<and> num_text n = ''0'') \<or> v = VStr [])
   \<and> (\<not> truthy show_int w \<longleftrightarrow> w = VNull \<or> w = VBool False \<or> w = VNum 0 \<or> w = VStr [])
   \<and> (\<not> truthy num_text v \<longrightarrow>
        write_handler num_text st userId (Some v) now
          = (res_send 400 ''Missing json body parameter'', st)
        \<and> write_handler num_text st userId (Some v) now
            = write_handler num_text st userId None now)
   \<and> write_handler num_text st userId (Some (VObj [])) now
       = (res_send 200 (''Data for user '' @ userId @ '' has been written''),
          writeData (set_property (readData st) userId
                       \<lparr>timeRemove = now + THIRTY_DAYS_MS, data = JObj []\<rparr>) st)"
proof -
  have "byteLength (stringify num_text (VObj [])) \<le> MAX_JSON_SIZE"
    by (simp add: byteLength_def stringify_def MAX_JSON_SIZE_def)
  then have accepted: "write_handler num_text st userId (Some (VObj [])) now
       = (res_send 200 (''Data for user '' @ userId @ '' has been written''),
          writeData (set_property (readData st) userId
                       \<lparr>timeRemove = now + THIRTY_DAYS_MS, data = JObj []\<rparr>) st)"
    using write_handler_accepts[of num_text "VObj []" st userId now] by simp
  have ints: "\<not> truthy show_int w \<longleftrightarrow> w = VNull \<or> w = VBool False \<or> w = VNum 0 \<or> w = VStr []"
    by (cases w) (auto simp: show_int_zero_iff)
  have rejected: "\<not> truthy num_text v \<longrightarrow>
        write_handler num_text st userId (Some v) now
          = (res_send 400 ''Missing json body parameter'', st)
        \<and> write_handler num_text st userId (Some v) now
            = write_handler num_text st userId None now"
    by (simp add: write_handler_def)
  show ?thesis
    using falsy_iff[of num_text v] ints rejected accepted by blast
qed

theorem falsy_json_rejected_witness:
  "\<not> truthy show_int (VNum 0)
   \<and> write_handler show_int empty_state ''u1'' (Some (VNum 0)) 7
       = (\<lparr>status = 400, body = Text ''Missing json body parameter''\<rparr>, empty_state)
   \<and> write_handler show_int empty_state ''u1'' (Some (VObj [])) 7
       = (\<lparr>status = 200, body = Text ''Data for user u1 has been written''\<rparr>,
          \<lparr>data_file = Some [(''u1'', \<lparr>timeRemove = 2592000007, data = JObj []\<rparr>)],
           writes = 1, proto_timeRemove = None\<rparr>)"
  using falsy_json_rejected[of show_int "VNum 0" "VNum 0" empty_state "''u1''" 7]
  by (simp add: res_send_def writeData_def readData_def set_property_def empty_state_def
                THIRTY_DAYS_MS_def show_int_def digit_def)

text \<open>
  C10. The size that the write handler compares with the limit of 5242880 bytes is the byte
  length of the serialization of the payload itself, and the comparison is strict: the size
  rejection happens exactly when that length exceeds 5242880; every payload of exactly
  5242880 bytes is accepted and stored, every payload of 5242881 bytes is rejected. The
  string of 5242878 letters is such a payload of 5242880 bytes, while wrapped as
  \<^verbatim>\<open>{"json": ...}\<close> it has 5242889 bytes.
\<close>

theorem size_check_boundary:
  "MAX_JSON_SIZE = 5242880
   \<and> (fst (write_handler num_text st userId (Some v) now)
          = res_send 400 ''JSON size exceeds the maximum limit of 5 MB'')
       = (5242880 < byteLength (stringify num_text v))
   \<and> (byteLength (stringify num_text v) = 5242880 \<longrightarrow>
        write_handler num_text st userId (Some v) now
          = (res_send 200 (''Data for user '' @ userId @ '' has been written''),
             writeData (set_property (readData st) userId
                          \<lparr>timeRemove = now + THIRTY_DAYS_MS, data = persisted v\<rparr>) st))
   \<and> (byteLength (stringify num_text v) = 5242881 \<longrightarrow>
        write_handler num_text st userId (Some v) now
          = (res_send 400 ''JSON size exceeds the maximum limit of 5 MB'', st))
   \<and> byteLength (stringify num_text (VStr (replicate 5242878 (CHR ''a'')))) = 5242880
   \<and> byteLength (stringify num_text
                     (VObj [(''json'', VStr (replicate 5242878 (CHR ''a'')))])) = 5242889"
proof -
  have small: "\<not> truthy num_text v \<Longrightarrow> \<not> 5242880 < byteLength (stringify num_text v)"
    using falsy_small[of num_text v] by simp
  have iff: "(fst (write_handler num_text st userId (Some v) now)
                = res_send 400 ''JSON size exceeds the maximum limit of 5 MB'')
           = (5242880 < byteLength (stringify num_text v))"
    using small by (simp add: write_handler_def MAX_JSON_SIZE_def res_send_def)
  have at_limit: "byteLength (stringify num_text v) = 5242880 \<longrightarrow>
        write_handler num_text st userId (Some v) now
          = (res_send 200 (''Data for user '' @ userId @ '' has been written''),
             writeData (set_property (readData st) userId
                          \<lparr>timeRemove = now + THIRTY_DAYS_MS, data = persisted v\<rparr>) st)"
  proof
    assume eq: "byteLength (stringify num_text v) = 5242880"
    then have "truthy num_text v" using falsy_small[of num_text v] by auto
    then show "write_handler num_text st userId (Some v) now
          = (res_send 200 (''Data for user '' @ userId @ '' has been written''),
             writeData (set_property (readData st) userId
                          \<lparr>timeRemove = now + THIRTY_DAYS_MS, data = persisted v\<rparr>) st)"
      using eq by (intro write_handler_accepts) (simp_all add: MAX_JSON_SIZE_def)
  qed
  have above: "byteLength (stringify num_text v) = 5242881 \<longrightarrow>
        write_handler num_text st userId (Some v) now
          = (res_send 400 ''JSON size exceeds the maximum limit of 5 MB'', st)"
    by (simp add: write_handler_oversize MAX_JSON_SIZE_def)
  have wrapped:
    "byteLength (stringify num_text
                   (VObj [(''json'', VStr (replicate 5242878 (CHR ''a'')))])) = 5242889"
    by (simp add: byteLength_def stringify_def quote_def escape_char_def escape_char_a
                  length_concat sum_list_replicate)
  have limit: "MAX_JSON_SIZE = 5242880"
    by (simp add: MAX_JSON_SIZE_def)
  show ?thesis
    using limit iff at_limit above wrapped
    by (simp only: byteLength_stringify_replicate) simp
qed

theorem size_check_boundary_witness:
  "byteLength (stringify show_int (VStr (replicate 5242878 (CHR ''a'')))) = 5242880
   \<and> write_handler show_int empty_state ''u1'' (Some (VStr (replicate 5242878 (CHR ''a'')))) 7
       = (\<lparr>status = 200, body = Text ''Data for user u1 has been written''\<rparr>,
          \<lparr>data_file = Some [(''u1'', \<lparr>timeRemove = 2592000007,
                                         data = JStr (replicate 5242878 (CHR ''a''))\<rparr>)],
           writes = 1, proto_timeRemove = None\<rparr>)
   \<and> byteLength (stringify show_int (VStr (replicate 5242879 (CHR ''a'')))) = 5242881
   \<and> write_handler show_int empty_state ''u1'' (Some (VStr (replicate 5242879 (CHR ''a'')))) 7
       = (\<lparr>status = 400, body = Text ''JSON size exceeds the maximum limit of 5 MB''\<rparr>,
          empty_state)"
  using size_check_boundary[of show_int empty_state "''u1''"
                               "VStr (replicate 5242878 (CHR ''a''))" 7]
        size_check_boundary[of show_int empty_state "''u1''"
                               "VStr (replicate 5242879 (CHR ''a''))" 7]
  by (simp add: byteLength_stringify_replicate res_send_def writeData_def readData_def
                set_property_def empty_state_def THIRTY_DAYS_MS_def)

text \<open>
  C7. Along every run of Put, Get, Delete and Sweep operations, from a state in which it
  holds, every entry of the store has \<open>timeRemove\<close> equal to the time of the last accepted
  write or read of an own entry of its key plus \<open>THIRTY_DAYS_MS\<close> (and the keys stay
  distinct).
\<close>

theorem expiry_invariant:
  assumes "wf_state st" and "expiry_inv la st"
  shows "wf_state (fst (run num_text (st, la) ops))
       \<and> expiry_inv (snd (run num_text (st, la) ops)) (fst (run num_text (st, la) ops))"
  using assms
proof (induction ops arbitrary: st la)
  case Nil
  then show ?case by simp
next
  case (Cons op ops)
  have "wf_state (apply_op num_text st op)"
   and "expiry_inv (last_access num_text st op la) (apply_op num_text st op)"
    using apply_op_inv[OF Cons.prems] by simp_all
  then show ?case
    using Cons.IH by simp
qed

theorem expiry_invariant_witness:
  "wf_state (empty_state :: int state) \<and> expiry_inv Map.empty (empty_state :: int state)
   \<and> wf_state (fst (run show_int (empty_state, Map.empty)
                      [Put ''u1'' (Some (VNum 1)) 0, Get ''u1'' 5, Sweep 7, Del ''u2'']))
   \<and> expiry_inv
         (snd (run show_int (empty_state, Map.empty)
                 [Put ''u1'' (Some (VNum 1)) 0, Get ''u1'' 5, Sweep 7, Del ''u2'']))
         (fst (run show_int (empty_state, Map.empty)
                 [Put ''u1'' (Some (VNum 1)) 0, Get ''u1'' 5, Sweep 7, Del ''u2'']))
   \<and> run show_int (empty_state, Map.empty)
         [Put ''u1'' (Some (VNum 1)) 0, Get ''u1'' 5, Sweep 7, Del ''u2'']
       = (\<lparr>data_file = Some [(''u1'', \<lparr>timeRemove = 2592000005, data = JNum 1\<rparr>)],
           writes = 2, proto_timeRemove = None\<rparr>,
          [''u1'' \<mapsto> 5])"
proof -
  have h: "wf_state (empty_state :: int state)" "expiry_inv Map.empty (empty_state :: int state)"
    by (simp_all add: wf_state_def expiry_inv_def readData_def empty_state_def)
  have w: "write_handler show_int empty_state ''u1'' (Some (VNum 1)) 0
             = (res_send 200 ''Data for user u1 has been written'',
                \<lparr>data_file = Some [(''u1'', \<lparr>timeRemove = 2592000000, data = JNum 1\<rparr>)],
                 writes = 1, proto_timeRemove = None\<rparr>)"
    by (simp add: write_handler_def byteLength_def stringify_def show_int_def digit_def
                  MAX_JSON_SIZE_def set_property_def readData_def writeData_def
                  empty_state_def THIRTY_DAYS_MS_def)
  have r: "run show_int (empty_state, Map.empty)
             [Put ''u1'' (Some (VNum 1)) 0, Get ''u1'' 5, Sweep 7, Del ''u2'']
       = (\<lparr>data_file = Some [(''u1'', \<lparr>timeRemove = 2592000005, data = JNum 1\<rparr>)],
           writes = 2, proto_timeRemove = None\<rparr>,
          [''u1'' \<mapsto> 5])"
    by (simp add: w res_send_def read_handler_def get_property_def readData_def writeData_def
                  removeInactiveUsers_def delete_handler_def delete_property_def
                  object_prototype_names_def THIRTY_DAYS_MS_def)
  show ?thesis
    using expiry_invariant[OF h,
            of show_int "[Put ''u1'' (Some (VNum 1)) 0, Get ''u1'' 5, Sweep 7, Del ''u2'']"] h r
    by simp
qed

text \<open>
  C2, the code at a failing input. The key \<^verbatim>\<open>constructor\<close> is written at time 0 and read at
  time \<open>THIRTY_DAYS_MS\<close>. The sweep removes the expired entry, but \<^verbatim>\<open>data[userId]\<close> then
  finds the member that every object inherits, so the handler takes the branch of a present
  key: it rewrites the file and answers 200 with no body instead of the empty object.
\<close>

theorem expired_read_of_inherited_name:
  "handle_request show_int show_int
     (snd (handle_request show_int show_int empty_state 16
             (Write ''constructor'' (Some (VObj [(''a'', VNum 1)]))) 0 0))
     0 (Read ''constructor'') 2592000000 2592000000
   = (Inr \<lparr>status = 200, body = NoBody\<rparr>,
      \<lparr>data_file = Some [], writes = 3, proto_timeRemove = None\<rparr>)"
proof -
  have limit: "(16::nat) \<le> BODY_LIMIT" "(0::nat) \<le> BODY_LIMIT"
    by (simp_all add: BODY_LIMIT_def)
  have w: "snd (handle_request show_int show_int empty_state 16
                  (Write ''constructor'' (Some (VObj [(''a'', VNum 1)]))) 0 0)
         = \<lparr>data_file = Some [(''constructor'',
                                 \<lparr>timeRemove = 2592000000, data = JObj [(''a'', JNum 1)]\<rparr>)],
            writes = 1, proto_timeRemove = None\<rparr>"
    unfolding handle_request_simps(2)[OF limit(1)] removeInactiveUsers_empty
    by (simp add: write_handler_def size_of_a1 MAX_JSON_SIZE_def set_property_def readData_def
                  writeData_def empty_state_def THIRTY_DAYS_MS_def show_int_def digit_def
                  array_index_def is_digit_def)
  show ?thesis
    unfolding w
    by (simp add: handle_request_simps limit removeInactiveUsers_def readData_def writeData_def
                  delete_property_def read_handler_def get_property_def
                  object_prototype_names_def res_json_def)
qed

text \<open>
  C5, the code at a failing input. With no file and no entry for \<^verbatim>\<open>constructor\<close>, the delete
  request for that key is answered with 200 and the text of a successful deletion, and the
  file is written, where the claim has 404 and an unchanged store.
\<close>

theorem delete_of_inherited_name:
  "map_of (readData (empty_state :: int state)) ''constructor'' = None
   \<and> handle_request show_int show_int empty_state 0 (Delete ''constructor'') 0 0
       = (Inr \<lparr>status = 200, body = Text ''Data for user constructor has been deleted''\<rparr>,
          \<lparr>data_file = Some [], writes = 1, proto_timeRemove = None\<rparr>)"
proof -
  have limit: "(0::nat) \<le> BODY_LIMIT"
    by (simp add: BODY_LIMIT_def)
  show ?thesis
    unfolding handle_request_simps(4)[OF limit] removeInactiveUsers_empty
    by (simp add: delete_handler_def get_property_def object_prototype_names_def
                  delete_property_def readData_def writeData_def empty_state_def res_send_def)
qed

text \<open>
  C8, the code at a failing input. With an empty document on disk (2 bytes), \<^verbatim>\<open>/dbinfo\<close>
  answers with an HTML fragment that gives the sizes in MB with two decimals; there is no
  JSON form with \<^verbatim>\<open>usedSize\<close>, \<^verbatim>\<open>remainingSize\<close> and \<^verbatim>\<open>maxDbSize\<close>. Before the file exists,
  \<^verbatim>\<open>fs.statSync\<close> throws and there is no 200 response at all.
\<close>

theorem dbinfo_is_html_only:
  "dbinfo_handler show_int show_int \<lparr>data_file = Some [], writes = 1, proto_timeRemove = None\<rparr>
     = Inr \<lparr>status = 200,
            body = Text ([CHR 0x0A] @ ''    <p>Database Size Information:</p>'' @
                         [CHR 0x0A] @ ''    <ul>'' @
                         [CHR 0x0A] @ ''      <li>Used Size: 0.00 MB</li>'' @
                         [CHR 0x0A] @ ''      <li>Remaining Size: 2048.00 MB</li>'' @
                         [CHR 0x0A] @ ''      <li>Maximum Size: 2048.00 MB</li>'' @
                         [CHR 0x0A] @ ''    </ul>'' @
                         [CHR 0x0A] @ ''  '')\<rparr>
   \<and> dbinfo_handler show_int show_int empty_state = Inl ENOENT"
proof -
  have u: "getFileSizeInBytes show_int show_int
             \<lparr>data_file = Some [], writes = 1, proto_timeRemove = None\<rparr> = Inr 2"
    by (simp add: getFileSizeInBytes_def json_of_document_def stringify2_def byteLength_def)
  have f: "toFixed2_MB 2 = ''0.00''" "toFixed2_MB 2147483646 = ''2048.00''"
          "toFixed2_MB 2147483648 = ''2048.00''"
    by (simp_all add: toFixed2_MB_def show_int_def digit_def)
  have absent: "dbinfo_handler show_int show_int empty_state = Inl ENOENT"
    by (simp add: dbinfo_handler_def getFileSizeInBytes_def empty_state_def)
  have present:
    "dbinfo_handler show_int show_int \<lparr>data_file = Some [], writes = 1, proto_timeRemove = None\<rparr>
     = Inr \<lparr>status = 200,
            body = Text ([CHR 0x0A] @ ''    <p>Database Size Information:</p>'' @
                         [CHR 0x0A] @ ''    <ul>'' @
                         [CHR 0x0A] @ ''      <li>Used Size: 0.00 MB</li>'' @
                         [CHR 0x0A] @ ''      <li>Remaining Size: 2048.00 MB</li>'' @
                         [CHR 0x0A] @ ''      <li>Maximum Size: 2048.00 MB</li>'' @
                         [CHR 0x0A] @ ''    </ul>'' @
                         [CHR 0x0A] @ ''  '')\<rparr>"
    unfolding dbinfo_handler_def u
    by (simp add: f getRemainingDbSpace_def MAX_DB_SIZE_def res_send_def)
  show ?thesis
    using present absent by (rule conjI)
qed

end
